theory Spec2Isabelle
  imports Main
begin

section \<open>Python values used by the validator module\<close>

text \<open>
  A Python \<open>str\<close> is a sequence of Unicode code points, so a string is a list of
  natural numbers (one per code point) and a one-character string is a one-element
  list. \<open>str\<close> turns an Isabelle literal into such a string.
\<close>

type_synonym pystr = "nat list"

definition ord :: "char \<Rightarrow> nat" where
  "ord c = of_char c"

definition str :: "string \<Rightarrow> pystr" where
  "str s = map ord s"

datatype error = ValueError | KeyError | IndexError

subsection \<open>Indexing and slicing\<close>

definition str_index :: "pystr \<Rightarrow> int \<Rightarrow> error + pystr" where
  \<comment> \<open>\<open>s[i]\<close> is a one-character string; \<open>-len .. -1\<close> count from the end, and any
      index outside \<open>-len .. len - 1\<close> raises IndexError.\<close>
  "str_index s i =
     (if 0 \<le> i \<and> i < int (length s) then Inr [s ! nat i]
      else if - int (length s) \<le> i \<and> i < 0 then Inr [s ! nat (int (length s) + i)]
      else Inl IndexError)"

definition slice_bound :: "nat \<Rightarrow> int \<Rightarrow> nat" where
  \<comment> \<open>A slice bound is clamped into \<open>0 .. len\<close>, a negative one counted from the end first.\<close>
  "slice_bound n i = (if i < 0 then nat (max 0 (int n + i)) else min n (nat i))"

definition py_slice :: "pystr \<Rightarrow> int \<Rightarrow> int \<Rightarrow> pystr" where
  \<comment> \<open>\<open>s[i:j]\<close>; it never raises.\<close>
  "py_slice s i j =
     (let a = slice_bound (length s) i; b = slice_bound (length s) j
      in take (b - a) (drop a s))"

subsection \<open>Unicode character classes of the interpreter\<close>

text \<open>
  The decimal digits of Unicode (general category Nd) come in runs of ten consecutive
  code points, the values 0 to 9 in order. \<open>decimal_zeros\<close> lists the first code point of
  every run (Unicode 14.0.0). Both \<open>\d\<close> of the \<open>re\<close> module on a \<open>str\<close> pattern and
  \<open>int\<close> on a \<open>str\<close> read digits through this table.
\<close>

definition decimal_zeros :: "nat list" where
  "decimal_zeros =
     [0x30, 0x660, 0x6F0, 0x7C0, 0x966, 0x9E6, 0xA66, 0xAE6, 0xB66, 0xBE6, 0xC66,
      0xCE6, 0xD66, 0xDE6, 0xE50, 0xED0, 0xF20, 0x1040, 0x1090, 0x17E0, 0x1810,
      0x1946, 0x19D0, 0x1A80, 0x1A90, 0x1B50, 0x1BB0, 0x1C40, 0x1C50, 0xA620,
      0xA8D0, 0xA900, 0xA9D0, 0xA9F0, 0xAA50, 0xABF0, 0xFF10, 0x104A0, 0x10D30,
      0x11066, 0x110F0, 0x11136, 0x111D0, 0x112F0, 0x11450, 0x114D0, 0x11650,
      0x116C0, 0x11730, 0x118E0, 0x11950, 0x11C50, 0x11D50, 0x11DA0, 0x16A60,
      0x16AC0, 0x16B50, 0x1D7CE, 0x1D7D8, 0x1D7E2, 0x1D7EC, 0x1D7F6, 0x1E140,
      0x1E2F0, 0x1E950, 0x1FBF0]"

fun todecimal_in :: "nat list \<Rightarrow> nat \<Rightarrow> nat option" where
  "todecimal_in [] c = None"
| "todecimal_in (z # zs) c =
     (if z \<le> c \<and> c < z + 10 then Some (c - z) else todecimal_in zs c)"

definition uni_todecimal :: "nat \<Rightarrow> nat option" where
  \<comment> \<open>The decimal value of a code point, None when it is not a decimal digit.\<close>
  "uni_todecimal c = todecimal_in decimal_zeros c"

definition uni_isdecimal :: "nat \<Rightarrow> bool" where
  "uni_isdecimal c = (uni_todecimal c \<noteq> None)"

definition uni_isspace :: "nat \<Rightarrow> bool" where
  \<comment> \<open>The whitespace of \<open>str\<close>.\<close>
  "uni_isspace c =
     (c \<in> set [0x9, 0xA, 0xB, 0xC, 0xD, 0x1C, 0x1D, 0x1E, 0x1F, 0x20, 0x85, 0xA0,
                0x1680, 0x2000, 0x2001, 0x2002, 0x2003, 0x2004, 0x2005, 0x2006,
                0x2007, 0x2008, 0x2009, 0x200A, 0x2028, 0x2029, 0x202F, 0x205F,
                0x3000])"

definition ascii_isspace :: "nat \<Rightarrow> bool" where
  \<comment> \<open>The whitespace the integer parser skips once the text is ASCII.\<close>
  "ascii_isspace c = (c \<in> set [0x9, 0xA, 0xB, 0xC, 0xD, 0x20])"

subsection \<open>\<open>int(s)\<close> on a string\<close>

text \<open>
  \<open>int\<close> first rewrites the string to ASCII: a code point below 127 stays, any other
  whitespace becomes a blank, any other decimal digit becomes its ASCII digit, and
  the first code point that is none of these becomes \<open>?\<close> and ends the text. The ASCII
  text is then read in base 10: blanks, an optional sign, digits with single
  underscores between them, blanks; anything else raises ValueError. (The limit of
  4300 digits of recent interpreters is left out of the model.)
\<close>

fun to_ascii :: "pystr \<Rightarrow> pystr" where
  "to_ascii [] = []"
| "to_ascii (c # cs) =
     (if c < 127 then c # to_ascii cs
      else if uni_isspace c then 0x20 # to_ascii cs
      else (case uni_todecimal c of
              Some d \<Rightarrow> (0x30 + d) # to_ascii cs
            | None \<Rightarrow> [0x3F]))"

definition ascii_isdigit :: "nat \<Rightarrow> bool" where
  "ascii_isdigit c = (0x30 \<le> c \<and> c \<le> 0x39)"

fun scan_digits :: "bool \<Rightarrow> int \<Rightarrow> pystr \<Rightarrow> (int \<times> pystr) option" where
  \<comment> \<open>The flag says that the previous character was an underscore; the result is the
      value read and the text left, None for a doubled or trailing underscore.\<close>
  "scan_digits us acc [] = (if us then None else Some (acc, []))"
| "scan_digits us acc (c # cs) =
     (if ascii_isdigit c then scan_digits False (10 * acc + int (c - 0x30)) cs
      else if c = 0x5F then (if us then None else scan_digits True acc cs)
      else if us then None else Some (acc, c # cs))"

definition long_from_string :: "pystr \<Rightarrow> error + int" where
  "long_from_string s =
     (let s1 = dropWhile ascii_isspace s;
          neg = (s1 \<noteq> [] \<and> hd s1 = 0x2D);
          s2 = (if s1 \<noteq> [] \<and> (hd s1 = 0x2B \<or> hd s1 = 0x2D) then tl s1 else s1)
      in if s2 = [] then Inl ValueError
         else if \<not> ascii_isdigit (hd s2) then Inl ValueError
         else (case scan_digits False 0 s2 of
                 None \<Rightarrow> Inl ValueError
               | Some (v, rest) \<Rightarrow>
                   if dropWhile ascii_isspace rest = []
                   then Inr (if neg then - v else v)
                   else Inl ValueError))"

definition py_int :: "pystr \<Rightarrow> error + int" where
  "py_int s = long_from_string (to_ascii s)"

subsection \<open>The fragment of \<open>re\<close> the two patterns use\<close>

text \<open>
  A compiled pattern is a sequence of items: the anchors \<open>^\<close> and \<open>$\<close>, the category
  \<open>\d\<close>, a set of literals \<open>[XYZ]\<close> and a range \<open>[A-Z]\<close>; \<open>\d{8}\<close> is eight items \<open>\d\<close>.
  Without flags, \<open>^\<close> holds at the start of the subject, and \<open>$\<close> holds at its end and
  also just before a line feed that is its last character. \<open>match\<close> starts at position
  0 and succeeds once the pattern is used up, whatever is left of the subject. The
  flag of \<open>sre_match\<close> says that the position is still the start of the subject.
\<close>

datatype item = AT_BEGINNING | AT_END | CATEGORY_DIGIT | IN_LITERALS "nat list" | IN_RANGE nat nat

fun item_accepts :: "item \<Rightarrow> nat \<Rightarrow> bool" where
  "item_accepts CATEGORY_DIGIT c = uni_isdecimal c"
| "item_accepts (IN_LITERALS cs) c = (c \<in> set cs)"
| "item_accepts (IN_RANGE lo hi) c = (lo \<le> c \<and> c \<le> hi)"
| "item_accepts AT_BEGINNING c = False"
| "item_accepts AT_END c = False"

fun sre_match :: "item list \<Rightarrow> bool \<Rightarrow> pystr \<Rightarrow> bool" where
  "sre_match [] at0 s = True"
| "sre_match (AT_BEGINNING # p) at0 s = (at0 \<and> sre_match p at0 s)"
| "sre_match (AT_END # p) at0 s = ((s = [] \<or> s = [0x0A]) \<and> sre_match p at0 s)"
| "sre_match (a # p) at0 [] = False"
| "sre_match (a # p) at0 (c # s) = (item_accepts a c \<and> sre_match p False s)"

definition re_match :: "item list \<Rightarrow> pystr \<Rightarrow> bool" where
  \<comment> \<open>The truth value of \<open>pattern.match(s)\<close>.\<close>
  "re_match p s = sre_match p True s"

section \<open>DocumentoIdentidadValidator\<close>

definition LETRAS_NIF :: pystr where
  "LETRAS_NIF = str ''TRWAGMYFPDXBNJZSQVHLCKE''"

definition pattern_nif :: "item list" where
  \<comment> \<open>\<open>^\d{8}[A-Z]$\<close>\<close>
  "pattern_nif =
     [AT_BEGINNING] @ replicate 8 CATEGORY_DIGIT
       @ [IN_RANGE (ord CHR ''A'') (ord CHR ''Z''), AT_END]"

definition pattern_nie :: "item list" where
  \<comment> \<open>\<open>^[XYZ]\d{7}[A-Z]$\<close>\<close>
  "pattern_nie =
     [AT_BEGINNING, IN_LITERALS (str ''XYZ'')] @ replicate 7 CATEGORY_DIGIT
       @ [IN_RANGE (ord CHR ''A'') (ord CHR ''Z''), AT_END]"

definition identificar_documento :: "pystr \<Rightarrow> pystr" where
  "identificar_documento doc =
     (if re_match pattern_nif doc then str ''NIF''
      else if re_match pattern_nie doc then str ''NIE''
      else str ''Desconocido'')"

definition validar_formato :: "pystr \<Rightarrow> bool" where
  "validar_formato doc = (re_match pattern_nif doc \<or> re_match pattern_nie doc)"

definition calcular_letra_nif :: "int \<Rightarrow> error + pystr" where
  "calcular_letra_nif numero = str_index LETRAS_NIF (numero mod 23)"

definition conversion :: "pystr \<rightharpoonup> pystr" where
  "conversion = map_of [(str ''X'', str ''0''), (str ''Y'', str ''1''), (str ''Z'', str ''2'')]"

definition validar_letra :: "pystr \<Rightarrow> error + bool" where
  "validar_letra doc =
     (let tipo = identificar_documento doc in
      if tipo = str ''NIF'' then
        (case py_int (py_slice doc 0 (- 1)) of
           Inl e \<Rightarrow> Inl e
         | Inr numero \<Rightarrow>
             (case calcular_letra_nif numero of
                Inl e \<Rightarrow> Inl e
              | Inr letra_correcta \<Rightarrow>
                  (case str_index doc (- 1) of
                     Inl e \<Rightarrow> Inl e
                   | Inr l \<Rightarrow> Inr (l = letra_correcta))))
      else if tipo = str ''NIE'' then
        (case str_index doc 0 of
           Inl e \<Rightarrow> Inl e
         | Inr k \<Rightarrow>
             (case conversion k of
                None \<Rightarrow> Inl KeyError
              | Some d \<Rightarrow>
                  (case py_int (d @ py_slice doc 1 (- 1)) of
                     Inl e \<Rightarrow> Inl e
                   | Inr numero \<Rightarrow>
                       (case calcular_letra_nif numero of
                          Inl e \<Rightarrow> Inl e
                        | Inr letra_correcta \<Rightarrow>
                            (case str_index doc (- 1) of
                               Inl e \<Rightarrow> Inl e
                             | Inr l \<Rightarrow> Inr (l = letra_correcta))))))
      else Inr False)"

definition mensaje :: "pystr \<Rightarrow> pystr \<Rightarrow> pystr" where
  \<comment> \<open>\<open>f"El documento '{doc}' {resto}"\<close>\<close>
  "mensaje doc resto = str ''El documento '' @ [0x27] @ doc @ [0x27] @ str '' '' @ resto"

definition validar_documento :: "pystr \<Rightarrow> error + pystr" where
  "validar_documento doc =
     (let tipo = identificar_documento doc in
      if tipo = str ''Desconocido''
      then Inr (mensaje doc (str ''tiene un formato inv'' @ [0xE1] @ str ''lido.''))
      else if validar_formato doc then
        (case validar_letra doc of
           Inl e \<Rightarrow> Inl e
         | Inr b \<Rightarrow>
             if b then Inr (mensaje doc (str ''es un '' @ tipo @ str '' v'' @ [0xE1] @ str ''lido.''))
             else Inr (mensaje doc (str ''es un '' @ tipo @ str '' inv'' @ [0xE1] @ str ''lido.'')))
      else Inr (mensaje doc (str ''es un '' @ tipo @ str '' inv'' @ [0xE1] @ str ''lido.'')))"

section \<open>The formats in words\<close>

text \<open>
  The two document formats as the specification words them, with the meaning of
  ``digit'' left open: nine characters, of which eight digits and an uppercase ASCII
  letter (NIF), or one of X, Y, Z, seven digits and an uppercase ASCII letter (NIE).
\<close>

definition ascii_upper :: "nat \<Rightarrow> bool" where
  "ascii_upper c = (ord CHR ''A'' \<le> c \<and> c \<le> ord CHR ''Z'')"

definition nif_format_with :: "(nat \<Rightarrow> bool) \<Rightarrow> pystr \<Rightarrow> bool" where
  "nif_format_with digit doc =
     (length doc = 9 \<and> list_all digit (take 8 doc) \<and> ascii_upper (doc ! 8))"

definition nie_format_with :: "(nat \<Rightarrow> bool) \<Rightarrow> pystr \<Rightarrow> bool" where
  "nie_format_with digit doc =
     (length doc = 9 \<and> doc ! 0 \<in> set (str ''XYZ'') \<and> list_all digit (take 7 (drop 1 doc))
      \<and> ascii_upper (doc ! 8))"

text \<open>The classification with the two patterns tried in the other order.\<close>

definition identificar_documento_nie_first :: "pystr \<Rightarrow> pystr" where
  "identificar_documento_nie_first doc =
     (if re_match pattern_nie doc then str ''NIE''
      else if re_match pattern_nif doc then str ''NIF''
      else str ''Desconocido'')"

text \<open>
  The number a run of decimal digits denotes in base 10, and the eight digits of a
  NIE once its first letter is replaced (X by 0, Y by 1, Z by 2).
\<close>

definition decimal_value :: "pystr \<Rightarrow> int" where
  "decimal_value ds = foldl (\<lambda>a c. 10 * a + int (the (uni_todecimal c))) 0 ds"

definition nie_digits :: "pystr \<Rightarrow> pystr" where
  "nie_digits doc =
     (if doc ! 0 = ord CHR ''X'' then str ''0''
      else if doc ! 0 = ord CHR ''Y'' then str ''1''
      else str ''2'') @ take 7 (drop 1 doc)"

section \<open>Evaluating literals and tables\<close>

lemmas lit = str_def ord_def

lemmas int_defs = py_int_def long_from_string_def ascii_isspace_def ascii_isdigit_def

lemma pattern_nif_items:
  "pattern_nif = AT_BEGINNING # replicate 8 CATEGORY_DIGIT @ [IN_RANGE 65 90, AT_END]"
  by (simp add: pattern_nif_def ord_def)

lemma pattern_nie_items:
  "pattern_nie = AT_BEGINNING # IN_LITERALS [88, 89, 90] # replicate 7 CATEGORY_DIGIT @ [IN_RANGE 65 90, AT_END]"
  by (simp add: pattern_nie_def ord_def str_def)

lemma LETRAS_NIF_items:
  "LETRAS_NIF = [84, 82, 87, 65, 71, 77, 89, 70, 80, 68, 88, 66, 78, 74, 90, 83, 81, 86, 72, 76, 67, 75, 69]"
  by (simp add: LETRAS_NIF_def str_def ord_def)

lemma length_LETRAS_NIF: "length LETRAS_NIF = 23"
  by (simp add: LETRAS_NIF_items)

lemma uni_todecimal_low:
  "c < 0x660 \<Longrightarrow> uni_todecimal c = (if 0x30 \<le> c \<and> c \<le> 0x39 then Some (c - 0x30) else None)"
  by (auto simp: uni_todecimal_def decimal_zeros_def)

lemma uni_isdecimal_low:
  "c < 0x660 \<Longrightarrow> uni_isdecimal c \<longleftrightarrow> 0x30 \<le> c \<and> c \<le> 0x39"
  by (simp add: uni_isdecimal_def uni_todecimal_low)

lemma uni_isdecimal_0x661: "uni_isdecimal 0x661"
  by (simp add: uni_isdecimal_def uni_todecimal_def decimal_zeros_def)

section \<open>What the two patterns match\<close>

lemma sre_match_digits:
  "sre_match (replicate n CATEGORY_DIGIT @ p) b s \<longleftrightarrow>
     n \<le> length s \<and> list_all uni_isdecimal (take n s) \<and> sre_match p (b \<and> n = 0) (drop n s)"
proof (induction n arbitrary: s b)
  case 0
  show ?case by simp
next
  case (Suc n)
  show ?case
  proof (cases s)
    case Nil
    then show ?thesis by simp
  next
    case (Cons c cs)
    then show ?thesis using Suc.IH [of False cs] by auto
  qed
qed

lemma sre_match_letter_end:
  "sre_match [IN_RANGE 65 90, AT_END] False s \<longleftrightarrow>
     (\<exists>l. 65 \<le> l \<and> l \<le> 90 \<and> (s = [l] \<or> s = [l, 0x0A]))"
  by (cases s) auto

lemma re_match_nif:
  "re_match pattern_nif doc \<longleftrightarrow>
     8 \<le> length doc \<and> list_all uni_isdecimal (take 8 doc)
     \<and> (\<exists>l. 65 \<le> l \<and> l \<le> 90 \<and> (drop 8 doc = [l] \<or> drop 8 doc = [l, 0x0A]))"
  by (simp add: re_match_def pattern_nif_items sre_match_digits sre_match_letter_end)

lemma re_match_nie:
  "re_match pattern_nie doc \<longleftrightarrow>
     (\<exists>k cs. doc = k # cs \<and> k \<in> {88, 89, 90} \<and> 7 \<le> length cs
        \<and> list_all uni_isdecimal (take 7 cs)
        \<and> (\<exists>l. 65 \<le> l \<and> l \<le> 90 \<and> (drop 7 cs = [l] \<or> drop 7 cs = [l, 0x0A])))"
  by (cases doc) (simp_all add: re_match_def pattern_nie_items sre_match_digits sre_match_letter_end)

lemma drop_eq_single: "drop n xs = [l] \<longleftrightarrow> length xs = Suc n \<and> xs ! n = l"
proof
  assume h: "drop n xs = [l]"
  then have "length (drop n xs) = 1" by simp
  then have len: "length xs = Suc n" by simp
  moreover have "xs ! n = hd (drop n xs)" using len by (simp add: hd_drop_conv_nth)
  ultimately show "length xs = Suc n \<and> xs ! n = l" using h by simp
next
  assume h: "length xs = Suc n \<and> xs ! n = l"
  then have "n < length xs" by simp
  then have "drop n xs = xs ! n # drop (Suc n) xs" by (rule Cons_nth_drop_Suc [symmetric])
  then show "drop n xs = [l]" using h by simp
qed

lemma drop_eq_pair:
  "drop n xs = [l, m] \<longleftrightarrow> length xs = Suc (Suc n) \<and> xs ! n = l \<and> xs ! Suc n = m"
proof
  assume h: "drop n xs = [l, m]"
  then have "length (drop n xs) = 2" by simp
  then have len: "length xs = Suc (Suc n)" by simp
  have "n < length xs" using len by simp
  then have "drop n xs = xs ! n # drop (Suc n) xs" by (rule Cons_nth_drop_Suc [symmetric])
  then have "xs ! n = l" and "drop (Suc n) xs = [m]" using h by simp_all
  then show "length xs = Suc (Suc n) \<and> xs ! n = l \<and> xs ! Suc n = m"
    using len by (simp add: drop_eq_single)
next
  assume h: "length xs = Suc (Suc n) \<and> xs ! n = l \<and> xs ! Suc n = m"
  then have "n < length xs" by simp
  then have "drop n xs = xs ! n # drop (Suc n) xs" by (rule Cons_nth_drop_Suc [symmetric])
  moreover have "drop (Suc n) xs = [m]" using h by (simp add: drop_eq_single)
  ultimately show "drop n xs = [l, m]" using h by simp
qed

lemma re_match_nif_format:
  "re_match pattern_nif doc \<longleftrightarrow>
     nif_format_with uni_isdecimal doc
     \<or> (doc \<noteq> [] \<and> last doc = 0x0A \<and> nif_format_with uni_isdecimal (butlast doc))"
proof -
  have a: "(\<exists>l. 65 \<le> l \<and> l \<le> 90 \<and> (drop 8 doc = [l] \<or> drop 8 doc = [l, 0x0A])) \<longleftrightarrow>
             (length doc = 9 \<and> ascii_upper (doc ! 8))
           \<or> (length doc = 10 \<and> ascii_upper (doc ! 8) \<and> doc ! 9 = 0x0A)"
    by (auto simp: drop_eq_single drop_eq_pair ascii_upper_def ord_def)
  have b: "length doc = 10 \<Longrightarrow> last doc = doc ! 9 \<and> take 8 (butlast doc) = take 8 doc
             \<and> butlast doc ! 8 = doc ! 8 \<and> doc \<noteq> []"
  proof -
    assume len: "length doc = 10"
    then have ne: "doc \<noteq> []" by auto
    have "last doc = doc ! (length doc - 1)" using ne by (rule last_conv_nth)
    then have "last doc = doc ! 9" using len by simp
    moreover have "take 8 (butlast doc) = take 8 doc" using len by (simp add: take_butlast)
    moreover have "butlast doc ! 8 = doc ! 8" using len by (simp add: nth_butlast)
    ultimately show ?thesis using ne by simp
  qed
  show ?thesis
    unfolding re_match_nif a nif_format_with_def
    using b by (cases "length doc = 10") auto
qed

lemma re_match_nie_format:
  "re_match pattern_nie doc \<longleftrightarrow>
     nie_format_with uni_isdecimal doc
     \<or> (doc \<noteq> [] \<and> last doc = 0x0A \<and> nie_format_with uni_isdecimal (butlast doc))"
proof (cases doc)
  case Nil
  then show ?thesis by (simp add: re_match_nie nie_format_with_def)
next
  case (Cons k cs)
  let ?P = "k \<in> set (str ''XYZ'')"
  let ?D = "list_all uni_isdecimal (take 7 cs)"
  let ?U = "ascii_upper (cs ! 7)"
  have a: "(\<exists>l. 65 \<le> l \<and> l \<le> 90 \<and> (drop 7 cs = [l] \<or> drop 7 cs = [l, 0x0A])) \<longleftrightarrow>
             (length cs = 8 \<and> ?U) \<or> (length cs = 9 \<and> ?U \<and> cs ! 8 = 0x0A)"
    by (auto simp: drop_eq_single drop_eq_pair ascii_upper_def ord_def)
  have k: "?P \<longleftrightarrow> k \<in> {88, 89, 90}"
    by (simp add: str_def ord_def)
  have m0: "re_match pattern_nie doc \<longleftrightarrow>
             ?P \<and> 7 \<le> length cs \<and> ?D
             \<and> (\<exists>l. 65 \<le> l \<and> l \<le> 90 \<and> (drop 7 cs = [l] \<or> drop 7 cs = [l, 0x0A]))"
    unfolding re_match_nie k using Cons by auto
  have m: "re_match pattern_nie doc \<longleftrightarrow>
             ?P \<and> ?D \<and> ((length cs = 8 \<and> ?U) \<or> (length cs = 9 \<and> ?U \<and> cs ! 8 = 0x0A))"
    unfolding m0 a by auto
  have f: "nie_format_with uni_isdecimal doc \<longleftrightarrow> length cs = 8 \<and> ?P \<and> ?D \<and> ?U"
    using Cons by (simp add: nie_format_with_def)
  have g: "(doc \<noteq> [] \<and> last doc = 0x0A \<and> nie_format_with uni_isdecimal (butlast doc)) \<longleftrightarrow>
             length cs = 9 \<and> ?P \<and> ?D \<and> ?U \<and> cs ! 8 = 0x0A"
  proof (cases "length cs = 9")
    case True
    then have ne: "cs \<noteq> []" by auto
    have "last cs = cs ! (length cs - 1)" using ne by (rule last_conv_nth)
    then have l: "last doc = cs ! 8" using True ne Cons by simp
    have t: "take 7 (butlast cs) = take 7 cs" using True by (simp add: take_butlast)
    have n: "butlast cs ! 7 = cs ! 7" using True by (simp add: nth_butlast)
    have bl: "butlast doc = k # butlast cs" using Cons ne by simp
    show ?thesis
      unfolding nie_format_with_def bl l using True t n Cons by auto
  next
    case False
    have "length (butlast doc) = length cs" using Cons by simp
    then show ?thesis using False by (simp add: nie_format_with_def)
  qed
  show ?thesis unfolding m f g by blast
qed

lemma formats_exclusive:
  "\<not> (nif_format_with uni_isdecimal doc \<and> nie_format_with uni_isdecimal doc)"
proof
  assume h: "nif_format_with uni_isdecimal doc \<and> nie_format_with uni_isdecimal doc"
  then have len: "length doc = 9" by (simp add: nif_format_with_def)
  then obtain c cs where doc: "doc = c # cs" by (cases doc) auto
  have "uni_isdecimal c" using h doc by (simp add: nif_format_with_def)
  moreover have "c \<in> {88, 89, 90}" using h doc by (simp add: nie_format_with_def str_def ord_def)
  ultimately show False
    by (auto simp: uni_isdecimal_def uni_todecimal_def decimal_zeros_def)
qed

section \<open>Slices and \<open>int\<close> on runs of digits\<close>

lemma py_slice_butlast: "py_slice doc 0 (- 1) = butlast doc"
proof -
  have "nat (max 0 (int (length doc) - 1)) = length doc - 1" by arith
  then show ?thesis by (simp add: py_slice_def slice_bound_def butlast_conv_take)
qed

lemma py_slice_inner: "py_slice doc 1 (- 1) = butlast (tl doc)"
proof (cases doc)
  case Nil
  then show ?thesis by (simp add: py_slice_def slice_bound_def)
next
  case (Cons c cs)
  have "nat (int (length cs)) - Suc 0 = length cs - 1" by simp
  then show ?thesis
    using Cons by (simp add: py_slice_def slice_bound_def butlast_conv_take)
qed

lemma todecimal_in_bound: "todecimal_in zs c = Some d \<Longrightarrow> d < 10"
  by (induction zs) (auto split: if_splits)

lemma decimal_not_space: "uni_isdecimal c \<Longrightarrow> \<not> uni_isspace c"
  by (auto simp: uni_isspace_def uni_isdecimal_def uni_todecimal_def decimal_zeros_def)

lemma to_ascii_digits:
  "list_all uni_isdecimal ds \<Longrightarrow> to_ascii ds = map (\<lambda>c. 0x30 + the (uni_todecimal c)) ds"
proof (induction ds)
  case Nil
  show ?case by simp
next
  case (Cons c cs)
  then have dc: "uni_isdecimal c" and rest: "to_ascii cs = map (\<lambda>c. 0x30 + the (uni_todecimal c)) cs"
    by simp_all
  show ?case
  proof (cases "c < 127")
    case True
    then have "c < 0x660" by simp
    then have "0x30 + the (uni_todecimal c) = c"
      using dc by (simp add: uni_isdecimal_low uni_todecimal_low)
    then show ?thesis using True rest by simp
  next
    case False
    obtain d where "uni_todecimal c = Some d" using dc by (auto simp: uni_isdecimal_def)
    then show ?thesis using False decimal_not_space [OF dc] rest by simp
  qed
qed

lemma ascii_digit_of_decimal:
  "uni_isdecimal c \<Longrightarrow> ascii_isdigit (0x30 + the (uni_todecimal c))"
proof -
  assume "uni_isdecimal c"
  then obtain d where d: "uni_todecimal c = Some d" by (auto simp: uni_isdecimal_def)
  then have "d < 10" unfolding uni_todecimal_def by (rule todecimal_in_bound)
  then show ?thesis using d by (simp add: ascii_isdigit_def)
qed

lemma scan_digits_all:
  "list_all ascii_isdigit ds \<Longrightarrow>
     scan_digits False acc ds = Some (foldl (\<lambda>a c. 10 * a + int (c - 0x30)) acc ds, [])"
  by (induction ds arbitrary: acc) simp_all

lemma long_from_string_digits:
  assumes "list_all ascii_isdigit ds" and "ds \<noteq> []"
  shows "long_from_string ds = Inr (foldl (\<lambda>a c. 10 * a + int (c - 0x30)) 0 ds)"
proof -
  obtain c cs where ds: "ds = c # cs" using assms(2) by (cases ds) auto
  then have c: "ascii_isdigit c" using assms(1) by simp
  then have ns: "\<not> ascii_isspace c" and sg: "c \<noteq> 0x2B" "c \<noteq> 0x2D"
    by (auto simp: ascii_isdigit_def ascii_isspace_def)
  have dw: "dropWhile ascii_isspace ds = ds" using ds ns by simp
  have hd: "hd ds = c" using ds by simp
  have sc: "scan_digits False 0 ds = Some (foldl (\<lambda>a c. 10 * a + int (c - 0x30)) 0 ds, [])"
    using assms(1) by (rule scan_digits_all)
  show ?thesis
    by (simp add: long_from_string_def dw Let_def sc hd assms(2) c sg)
qed

lemma py_int_digits:
  assumes "list_all uni_isdecimal ds" and "ds \<noteq> []"
  shows "py_int ds = Inr (decimal_value ds)"
proof -
  let ?f = "\<lambda>c. 0x30 + the (uni_todecimal c)"
  have a: "to_ascii ds = map ?f ds" using assms(1) by (rule to_ascii_digits)
  have b: "list_all ascii_isdigit (map ?f ds)"
    using assms(1) by (induction ds) (simp_all add: ascii_digit_of_decimal)
  have c: "map ?f ds \<noteq> []" using assms(2) by simp
  have "foldl (\<lambda>a c. 10 * a + int (c - 0x30)) 0 (map ?f ds) = decimal_value ds"
    by (simp add: foldl_map decimal_value_def)
  then show ?thesis
    unfolding py_int_def a using long_from_string_digits [OF b c] by simp
qed

lemma decimal_value_nonneg: "0 \<le> decimal_value ds"
proof -
  have "0 \<le> acc \<Longrightarrow> 0 \<le> foldl (\<lambda>a c. 10 * a + int (the (uni_todecimal c))) acc ds" for acc
    by (induction ds arbitrary: acc) simp_all
  then show ?thesis by (simp add: decimal_value_def)
qed

section \<open>Classification\<close>

text \<open>
  C1 (amended). For every string other than a well-formed document followed by one
  line feed, \<open>identificar_documento\<close> returns \<open>NIF\<close> exactly when the string is eight
  decimal digits (any Unicode decimal digit, which is what \<open>\d\<close> accepts) followed by
  one uppercase ASCII letter, nine characters in all; \<open>NIE\<close> exactly when it is one of
  X, Y, Z, seven decimal digits and one uppercase ASCII letter; and \<open>Desconocido\<close> for
  every other string, those that end in a line feed included. The function has no
  error result: it never raises.
\<close>

theorem identificar_documento_formats:
  assumes "\<not> (doc \<noteq> [] \<and> last doc = 0x0A
              \<and> (nif_format_with uni_isdecimal (butlast doc)
                   \<or> nie_format_with uni_isdecimal (butlast doc)))"
  shows "(identificar_documento doc = str ''NIF'' \<longleftrightarrow> nif_format_with uni_isdecimal doc)
       \<and> (identificar_documento doc = str ''NIE'' \<longleftrightarrow> nie_format_with uni_isdecimal doc)
       \<and> (identificar_documento doc = str ''Desconocido'' \<longleftrightarrow>
            \<not> nif_format_with uni_isdecimal doc \<and> \<not> nie_format_with uni_isdecimal doc)"
proof -
  have nif: "re_match pattern_nif doc \<longleftrightarrow> nif_format_with uni_isdecimal doc"
    using assms by (auto simp: re_match_nif_format)
  have nie: "re_match pattern_nie doc \<longleftrightarrow> nie_format_with uni_isdecimal doc"
    using assms by (auto simp: re_match_nie_format)
  have excl: "\<not> (nif_format_with uni_isdecimal doc \<and> nie_format_with uni_isdecimal doc)"
    by (rule formats_exclusive)
  show ?thesis
    unfolding identificar_documento_def nif nie using excl
    by (auto simp: str_def ord_def)
qed

theorem identificar_documento_formats_witness:
  "identificar_documento (str ''12345678Z'') = str ''NIF''
   \<and> nif_format_with uni_isdecimal (str ''12345678Z'')
   \<and> \<not> nie_format_with uni_isdecimal (str ''12345678Z'')
   \<and> last (str ''hola'' @ [0x0A]) = 0x0A
   \<and> \<not> nif_format_with uni_isdecimal (str ''hola'')
   \<and> \<not> nie_format_with uni_isdecimal (str ''hola'')
   \<and> identificar_documento (str ''hola'' @ [0x0A]) = str ''Desconocido''"
proof -
  have h: "\<not> (str ''12345678Z'' \<noteq> [] \<and> last (str ''12345678Z'') = 0x0A
              \<and> (nif_format_with uni_isdecimal (butlast (str ''12345678Z''))
                   \<or> nie_format_with uni_isdecimal (butlast (str ''12345678Z''))))"
    by (simp add: lit)
  have f: "nif_format_with uni_isdecimal (str ''12345678Z'')"
    by (simp add: nif_format_with_def ascii_upper_def lit uni_isdecimal_low)
  have ne: "str ''NIF'' \<noteq> str ''NIE''" by (simp add: lit)
  have a: "identificar_documento (str ''12345678Z'') = str ''NIF''
             \<longleftrightarrow> nif_format_with uni_isdecimal (str ''12345678Z'')"
    and b: "identificar_documento (str ''12345678Z'') = str ''NIE''
             \<longleftrightarrow> nie_format_with uni_isdecimal (str ''12345678Z'')"
    using identificar_documento_formats [OF h] by simp_all
  have tipo: "identificar_documento (str ''12345678Z'') = str ''NIF''"
    using a f by simp
  have notnie: "\<not> nie_format_with uni_isdecimal (str ''12345678Z'')"
    using b tipo ne by simp
  have lf: "last (str ''hola'' @ [0x0A]) = 0x0A" by simp
  have g1: "\<not> nif_format_with uni_isdecimal (str ''hola'')"
    and g2: "\<not> nie_format_with uni_isdecimal (str ''hola'')"
    by (simp_all add: nif_format_with_def nie_format_with_def lit)
  have h2: "\<not> (str ''hola'' @ [0x0A] \<noteq> [] \<and> last (str ''hola'' @ [0x0A]) = 0x0A
              \<and> (nif_format_with uni_isdecimal (butlast (str ''hola'' @ [0x0A]))
                   \<or> nie_format_with uni_isdecimal (butlast (str ''hola'' @ [0x0A]))))"
    using g1 g2 by simp
  have g3: "\<not> nif_format_with uni_isdecimal (str ''hola'' @ [0x0A])"
    and g4: "\<not> nie_format_with uni_isdecimal (str ''hola'' @ [0x0A])"
    by (simp_all add: nif_format_with_def nie_format_with_def lit)
  have "identificar_documento (str ''hola'' @ [0x0A]) = str ''Desconocido''"
    using identificar_documento_formats [OF h2] g3 g4 by simp
  then show ?thesis using tipo f notnie lf g1 g2 by simp
qed

text \<open>
  The claim as first worded fails twice: a string whose first digit is ARABIC-INDIC
  DIGIT ONE (U+0661) is classified NIF although it is not made of ASCII digits, and
  the ten-character string \<open>12345678Z\<close> followed by a line feed is classified NIF.
\<close>

theorem identificar_documento_counterexample:
  "identificar_documento ([0x661] @ str ''2345678Z'') = str ''NIF''
   \<and> \<not> nif_format_with ascii_isdigit ([0x661] @ str ''2345678Z'')
   \<and> identificar_documento (str ''12345678Z'' @ [0x0A]) = str ''NIF''
   \<and> \<not> nif_format_with ascii_isdigit (str ''12345678Z'' @ [0x0A])"
proof -
  have "re_match pattern_nif ([0x661] @ str ''2345678Z'')"
    by (simp add: re_match_nif lit uni_isdecimal_low uni_isdecimal_0x661)
  then have a: "identificar_documento ([0x661] @ str ''2345678Z'') = str ''NIF''"
    by (simp add: identificar_documento_def)
  have b: "\<not> nif_format_with ascii_isdigit ([0x661] @ str ''2345678Z'')"
    by (simp add: nif_format_with_def ascii_isdigit_def lit)
  have "re_match pattern_nif (str ''12345678Z'' @ [0x0A])"
    by (simp add: re_match_nif lit uni_isdecimal_low)
  then have c: "identificar_documento (str ''12345678Z'' @ [0x0A]) = str ''NIF''"
    by (simp add: identificar_documento_def)
  have d: "\<not> nif_format_with ascii_isdigit (str ''12345678Z'' @ [0x0A])"
    by (simp add: nif_format_with_def lit)
  show ?thesis using a b c d by simp
qed

text \<open>
  C9. No string matches both patterns, so \<open>identificar_documento\<close> returns the same
  result when the NIE pattern is tried before the NIF pattern.
\<close>

theorem patterns_exclusive:
  "\<not> (re_match pattern_nif doc \<and> re_match pattern_nie doc)
   \<and> identificar_documento_nie_first doc = identificar_documento doc"
proof -
  have "\<not> (re_match pattern_nif doc \<and> re_match pattern_nie doc)"
  proof
    assume h: "re_match pattern_nif doc \<and> re_match pattern_nie doc"
    then obtain k cs where doc: "doc = k # cs" and k: "k \<in> {88, 89, 90}"
      by (auto simp: re_match_nie)
    have "uni_isdecimal k" using h doc by (simp add: re_match_nif)
    then show False using k by (auto simp: uni_isdecimal_low)
  qed
  then show ?thesis
    by (auto simp: identificar_documento_def identificar_documento_nie_first_def)
qed

theorem patterns_exclusive_witness:
  "re_match pattern_nie (str ''X1234567L'') \<and> \<not> re_match pattern_nif (str ''X1234567L'')
   \<and> identificar_documento_nie_first (str ''X1234567L'') = str ''NIE''
   \<and> identificar_documento (str ''X1234567L'') = str ''NIE''"
proof -
  have nie: "re_match pattern_nie (str ''X1234567L'')"
    by (simp add: re_match_nie lit uni_isdecimal_low)
  then have "identificar_documento_nie_first (str ''X1234567L'') = str ''NIE''"
    by (simp add: identificar_documento_nie_first_def)
  then show ?thesis using nie patterns_exclusive [of "str ''X1234567L''"] by simp
qed

section \<open>The control letter\<close>

lemma calcular_letra_nif_nth:
  "calcular_letra_nif n = Inr [LETRAS_NIF ! nat (n mod 23)]"
proof -
  have "0 \<le> n mod 23" and "n mod 23 < 23" by simp_all
  then show ?thesis
    by (simp add: calcular_letra_nif_def str_index_def length_LETRAS_NIF Let_def)
qed

text \<open>
  C3. For every non-negative number, \<open>calcular_letra_nif\<close> returns the character at
  index \<open>numero mod 23\<close> of the table \<open>TRWAGMYFPDXBNJZSQVHLCKE\<close>, which has 23 characters,
  \<open>T\<close> at index 0 and \<open>E\<close> at index 22. The table is a constant: no function of the
  validator takes it as an argument or returns a changed copy.
\<close>

theorem calcular_letra_nif_table:
  assumes "0 \<le> n"
  shows "calcular_letra_nif n = Inr [LETRAS_NIF ! nat (n mod 23)]
       \<and> LETRAS_NIF = str ''TRWAGMYFPDXBNJZSQVHLCKE''
       \<and> length LETRAS_NIF = 23
       \<and> LETRAS_NIF ! 0 = ord CHR ''T''
       \<and> LETRAS_NIF ! 22 = ord CHR ''E''"
proof -
  have "LETRAS_NIF ! 0 = ord CHR ''T''" by (simp add: LETRAS_NIF_items ord_def)
  moreover have "LETRAS_NIF ! 22 = ord CHR ''E''" by (simp add: LETRAS_NIF_items ord_def)
  ultimately show ?thesis
    by (simp add: calcular_letra_nif_nth length_LETRAS_NIF) (simp add: LETRAS_NIF_def)
qed

theorem calcular_letra_nif_table_witness:
  "(0::int) \<le> 12345678 \<and> calcular_letra_nif 12345678 = Inr (str ''Z'')"
proof -
  have h: "(0::int) \<le> 12345678" by simp
  have "nat (12345678 mod 23) = 14" by simp
  moreover have "LETRAS_NIF ! 14 = 90" by (simp add: LETRAS_NIF_items)
  ultimately show ?thesis
    using calcular_letra_nif_table [OF h] by (simp add: str_def ord_def)
qed

text \<open>
  C7. For every \<open>n\<close> from 0 to 99999999 and every integer \<open>k\<close> with \<open>n + 23k\<close>
  non-negative, \<open>n\<close> and \<open>n + 23k\<close> have the same control letter.
\<close>

theorem calcular_letra_nif_periodic:
  assumes "0 \<le> n" and "n \<le> 99999999" and "0 \<le> n + 23 * k"
  shows "calcular_letra_nif n = calcular_letra_nif (n + 23 * k)"
  by (simp add: calcular_letra_nif_def)

theorem calcular_letra_nif_periodic_witness:
  "(0::int) \<le> 12345678 \<and> (12345678::int) \<le> 99999999 \<and> (0::int) \<le> 12345678 + 23 * (- 1000)
   \<and> calcular_letra_nif 12345678 = calcular_letra_nif 12322678"
  using calcular_letra_nif_periodic [of 12345678 "- 1000"] by simp

text \<open>
  C10. \<open>calcular_letra_nif\<close> is total on every integer, negative ones included: the
  remainder \<open>numero % 23\<close> lies in 0..22, the result is never an IndexError and is always
  one character of the table.
\<close>

theorem calcular_letra_nif_total:
  "\<exists>c. calcular_letra_nif n = Inr [c] \<and> c \<in> set LETRAS_NIF \<and> 0 \<le> n mod 23 \<and> n mod 23 < 23"
proof -
  have "nat (n mod 23) < length LETRAS_NIF" by (simp add: length_LETRAS_NIF)
  then have "LETRAS_NIF ! nat (n mod 23) \<in> set LETRAS_NIF" by (rule nth_mem)
  then show ?thesis by (simp add: calcular_letra_nif_nth)
qed

section \<open>Checking the letter and validating\<close>

text \<open>
  On a document of either format \<open>validar_letra\<close> compares the ninth character with the
  letter of the number read from the digits; on a NIE the number is read after the
  first letter is replaced. Every string other than a well-formed document followed by
  one line feed therefore gets a truth value from \<open>validar_letra\<close> and a message from \<open>validar_documento\<close>.
\<close>

lemma validar_letra_nif:
  assumes "nif_format_with uni_isdecimal doc"
  shows "validar_letra doc
           = Inr (doc ! 8 = LETRAS_NIF ! nat (decimal_value (take 8 doc) mod 23))"
proof -
  have len: "length doc = 9" and ds: "list_all uni_isdecimal (take 8 doc)"
    using assms by (simp_all add: nif_format_with_def)
  have "re_match pattern_nif doc" using assms by (simp add: re_match_nif_format)
  then have tipo: "identificar_documento doc = str ''NIF''"
    by (simp add: identificar_documento_def)
  have sl: "py_slice doc 0 (- 1) = take 8 doc"
    using len by (simp add: py_slice_butlast butlast_conv_take)
  have ne: "take 8 doc \<noteq> []" using len by auto
  have num: "py_int (take 8 doc) = Inr (decimal_value (take 8 doc))"
    using ds ne by (rule py_int_digits)
  have ult: "str_index doc (- 1) = Inr [doc ! 8]"
    using len by (simp add: str_index_def)
  show ?thesis
    by (simp add: validar_letra_def tipo sl num calcular_letra_nif_nth ult)
qed

lemma validar_letra_nie:
  assumes "nie_format_with uni_isdecimal doc"
  shows "validar_letra doc
           = Inr (doc ! 8 = LETRAS_NIF ! nat (decimal_value (nie_digits doc) mod 23))"
proof -
  have len: "length doc = 9" and ds: "list_all uni_isdecimal (take 7 (drop 1 doc))"
    and k: "doc ! 0 \<in> {88, 89, 90}"
    using assms by (simp_all add: nie_format_with_def lit)
  have "\<not> re_match pattern_nif doc"
    using assms formats_exclusive [of doc] len by (auto simp: re_match_nif_format nif_format_with_def)
  moreover have "re_match pattern_nie doc" using assms by (simp add: re_match_nie_format)
  ultimately have tipo: "identificar_documento doc = str ''NIE''"
    by (simp add: identificar_documento_def)
  have ne: "str ''NIE'' \<noteq> str ''NIF''" by (simp add: lit)
  have first: "str_index doc 0 = Inr [doc ! 0]"
    using len by (simp add: str_index_def)
  have "\<exists>d. conversion [doc ! 0] = Some d \<and> d @ take 7 (drop 1 doc) = nie_digits doc"
    using k by (auto simp: conversion_def nie_digits_def lit)
  then obtain d where conv: "conversion [doc ! 0] = Some d"
    and cat: "d @ take 7 (drop 1 doc) = nie_digits doc" by blast
  have sl: "py_slice doc 1 (- 1) = take 7 (drop 1 doc)"
    using len by (simp add: py_slice_inner butlast_conv_take drop_Suc)
  have all: "list_all uni_isdecimal (nie_digits doc)"
    using ds by (simp add: nie_digits_def lit uni_isdecimal_low)
  have nonempty: "nie_digits doc \<noteq> []" by (simp add: nie_digits_def lit)
  have num: "py_int (nie_digits doc) = Inr (decimal_value (nie_digits doc))"
    using all nonempty by (rule py_int_digits)
  have ult: "str_index doc (- 1) = Inr [doc ! 8]"
    using len by (simp add: str_index_def)
  show ?thesis
    by (simp add: validar_letra_def tipo ne first conv sl cat num calcular_letra_nif_nth ult
          del: One_nat_def)
qed

lemma validar_letra_returns:
  assumes "\<not> (doc \<noteq> [] \<and> last doc = 0x0A
              \<and> (nif_format_with uni_isdecimal (butlast doc)
                   \<or> nie_format_with uni_isdecimal (butlast doc)))"
  shows "\<exists>b. validar_letra doc = Inr b"
proof -
  have nif: "re_match pattern_nif doc \<longleftrightarrow> nif_format_with uni_isdecimal doc"
    using assms by (auto simp: re_match_nif_format)
  have nie: "re_match pattern_nie doc \<longleftrightarrow> nie_format_with uni_isdecimal doc"
    using assms by (auto simp: re_match_nie_format)
  show ?thesis
  proof (cases "nif_format_with uni_isdecimal doc")
    case True
    then show ?thesis by (simp add: validar_letra_nif)
  next
    case notnif: False
    show ?thesis
    proof (cases "nie_format_with uni_isdecimal doc")
      case True
      then show ?thesis by (simp add: validar_letra_nie)
    next
      case False
      then have "identificar_documento doc = str ''Desconocido''"
        using notnif nif nie by (simp add: identificar_documento_def)
      then have "validar_letra doc = Inr False" by (simp add: validar_letra_def lit)
      then show ?thesis by blast
    qed
  qed
qed

lemma validar_documento_returns:
  assumes "\<not> (doc \<noteq> [] \<and> last doc = 0x0A
              \<and> (nif_format_with uni_isdecimal (butlast doc)
                   \<or> nie_format_with uni_isdecimal (butlast doc)))"
  shows "validar_documento doc =
     Inr (if identificar_documento doc = str ''Desconocido''
          then mensaje doc (str ''tiene un formato inv'' @ [0xE1] @ str ''lido.'')
          else if validar_formato doc \<and> validar_letra doc = Inr True
          then mensaje doc (str ''es un '' @ identificar_documento doc @ str '' v'' @ [0xE1] @ str ''lido.'')
          else mensaje doc (str ''es un '' @ identificar_documento doc @ str '' inv'' @ [0xE1] @ str ''lido.''))"
proof -
  obtain b where b: "validar_letra doc = Inr b"
    using validar_letra_returns [OF assms] by blast
  show ?thesis by (simp add: validar_documento_def Let_def b)
qed

text \<open>
  C5. For every string classified \<open>Desconocido\<close>, \<open>validar_letra\<close> returns False and
  does not raise.
\<close>

theorem validar_letra_desconocido:
  assumes "identificar_documento doc = str ''Desconocido''"
  shows "validar_letra doc = Inr False"
  using assms by (simp add: validar_letra_def str_def ord_def)

lemma identificar_ABCDEFGHI: "identificar_documento (str ''ABCDEFGHI'') = str ''Desconocido''"
  by (simp add: identificar_documento_def re_match_nif re_match_nie str_def ord_def
        uni_isdecimal_low)

theorem validar_letra_desconocido_witness:
  "identificar_documento (str ''ABCDEFGHI'') = str ''Desconocido''
   \<and> validar_letra (str ''ABCDEFGHI'') = Inr False"
  using validar_letra_desconocido [OF identificar_ABCDEFGHI] identificar_ABCDEFGHI by simp

text \<open>
  C8. \<open>validar_documento("12345678Z")\<close> reports a valid NIF: the document is classified
  NIF, its number is 12345678, \<open>12345678 mod 23 = 14\<close> and the table has \<open>Z\<close> at index 14.
\<close>

theorem validar_documento_12345678Z:
  "validar_documento (str ''12345678Z'')
     = Inr (str ''El documento '12345678Z' es un NIF v'' @ [0xE1] @ str ''lido.'')
   \<and> identificar_documento (str ''12345678Z'') = str ''NIF''
   \<and> validar_letra (str ''12345678Z'') = Inr True
   \<and> py_int (str ''12345678'') = Inr 12345678
   \<and> (12345678 :: int) mod 23 = 14
   \<and> str_index LETRAS_NIF 14 = Inr (str ''Z'')"
proof -
  have nif: "re_match pattern_nif (str ''12345678Z'')"
    by (simp add: re_match_nif lit uni_isdecimal_low)
  then have tipo: "identificar_documento (str ''12345678Z'') = str ''NIF''"
    by (simp add: identificar_documento_def)
  have sl: "py_slice (str ''12345678Z'') 0 (- 1) = str ''12345678''"
    by (simp add: py_slice_def slice_bound_def lit)
  have num: "py_int (str ''12345678'') = Inr 12345678"
    by (simp add: int_defs lit)
  have m: "(12345678 :: int) mod 23 = 14" by simp
  have tab: "str_index LETRAS_NIF 14 = Inr (str ''Z'')"
    by (simp add: str_index_def LETRAS_NIF_items lit)
  have letra: "calcular_letra_nif 12345678 = Inr (str ''Z'')"
    unfolding calcular_letra_nif_def m by (rule tab)
  have ult: "str_index (str ''12345678Z'') (- 1) = Inr (str ''Z'')"
    by (simp add: str_index_def lit)
  have ok: "validar_letra (str ''12345678Z'') = Inr True"
    by (simp add: validar_letra_def tipo sl num letra ult)
  have "validar_documento (str ''12345678Z'')
     = Inr (str ''El documento '12345678Z' es un NIF v'' @ [0xE1] @ str ''lido.'')"
    unfolding validar_documento_def validar_formato_def tipo ok Let_def
    using nif by (simp add: mensaje_def lit)
  then show ?thesis using tipo ok num m tab by simp
qed

text \<open>
  C2, at the input \<open>12345678Z\<close> followed by a line feed. The final line feed is accepted by \<open>$\<close>, so the
  document is classified NIF and \<open>validar_formato\<close> holds; \<open>validar_letra\<close> then calls
  \<open>int("12345678Z")\<close>, and the ValueError leaves \<open>validar_documento\<close>: no outcome is
  returned. Every string that is not such a document followed by one line feed gets
  its message (\<open>validar_documento_returns\<close>).
\<close>

theorem validar_documento_raises:
  "identificar_documento (str ''12345678Z'' @ [0x0A]) = str ''NIF''
   \<and> validar_formato (str ''12345678Z'' @ [0x0A])
   \<and> validar_letra (str ''12345678Z'' @ [0x0A]) = Inl ValueError
   \<and> validar_documento (str ''12345678Z'' @ [0x0A]) = Inl ValueError"
proof -
  have nif: "re_match pattern_nif (str ''12345678Z'' @ [0x0A])"
    by (simp add: re_match_nif lit uni_isdecimal_low)
  then have tipo: "identificar_documento (str ''12345678Z'' @ [0x0A]) = str ''NIF''"
    by (simp add: identificar_documento_def)
  have sl: "py_slice (str ''12345678Z'' @ [0x0A]) 0 (- 1) = str ''12345678Z''"
    by (simp add: py_slice_def slice_bound_def lit)
  have num: "py_int (str ''12345678Z'') = Inl ValueError"
    by (simp add: int_defs lit)
  have bad: "validar_letra (str ''12345678Z'' @ [0x0A]) = Inl ValueError"
    by (simp add: validar_letra_def tipo sl num)
  have "validar_documento (str ''12345678Z'' @ [0x0A]) = Inl ValueError"
    unfolding validar_documento_def validar_formato_def tipo bad Let_def
    using nif by (simp add: lit)
  then show ?thesis using tipo bad nif by (simp add: validar_formato_def)
qed

text \<open>
  C4, at the input \<open>X1234567L\<close> followed by a line feed. The document is classified NIE; the number is
  read from \<open>"0" + doc[1:-1]\<close>, which is \<open>01234567L\<close>, and \<open>validar_letra\<close> raises
  ValueError instead of returning a truth value. On the nine-character documents of
  the NIE format the result is as claimed (\<open>validar_letra_nie\<close>).
\<close>

theorem validar_letra_nie_raises:
  "identificar_documento (str ''X1234567L'' @ [0x0A]) = str ''NIE''
   \<and> conversion (str ''X'') = Some (str ''0'')
   \<and> py_slice (str ''X1234567L'' @ [0x0A]) 1 (- 1) = str ''1234567L''
   \<and> py_int (str ''01234567L'') = Inl ValueError
   \<and> validar_letra (str ''X1234567L'' @ [0x0A]) = Inl ValueError"
proof -
  have nonif: "\<not> re_match pattern_nif (str ''X1234567L'' @ [0x0A])"
    by (simp add: re_match_nif lit uni_isdecimal_low)
  have nie: "re_match pattern_nie (str ''X1234567L'' @ [0x0A])"
    by (simp add: re_match_nie lit uni_isdecimal_low)
  have tipo: "identificar_documento (str ''X1234567L'' @ [0x0A]) = str ''NIE''"
    using nonif nie by (simp add: identificar_documento_def)
  have ne: "str ''NIE'' \<noteq> str ''NIF''" by (simp add: lit)
  have k: "str_index (str ''X1234567L'' @ [0x0A]) 0 = Inr (str ''X'')"
    by (simp add: str_index_def lit)
  have conv: "conversion (str ''X'') = Some (str ''0'')"
    by (simp add: conversion_def lit)
  have sl: "py_slice (str ''X1234567L'' @ [0x0A]) 1 (- 1) = str ''1234567L''"
    by (simp add: py_slice_def slice_bound_def lit)
  have cat: "str ''0'' @ str ''1234567L'' = str ''01234567L''" by (simp add: lit)
  have num: "py_int (str ''01234567L'') = Inl ValueError"
    by (simp add: int_defs lit)
  have "validar_letra (str ''X1234567L'' @ [0x0A]) = Inl ValueError"
    by (simp add: validar_letra_def tipo ne k conv sl cat num)
  then show ?thesis using tipo conv sl num by simp
qed

text \<open>
  C6, at the input \<open>00000000T\<close> followed by a line feed. The document is classified NIF, and the text
  handed to \<open>int\<close> is \<open>doc[:-1]\<close>, which still holds the letter: the conversion
  fails. On a run of decimal digits it cannot fail (\<open>py_int_digits\<close>).
\<close>

theorem int_of_matched_document_raises:
  "identificar_documento (str ''00000000T'' @ [0x0A]) = str ''NIF''
   \<and> py_slice (str ''00000000T'' @ [0x0A]) 0 (- 1) = str ''00000000T''
   \<and> py_int (str ''00000000T'') = Inl ValueError"
proof -
  have nif: "re_match pattern_nif (str ''00000000T'' @ [0x0A])"
    by (simp add: re_match_nif lit uni_isdecimal_low)
  then have tipo: "identificar_documento (str ''00000000T'' @ [0x0A]) = str ''NIF''"
    by (simp add: identificar_documento_def)
  have sl: "py_slice (str ''00000000T'' @ [0x0A]) 0 (- 1) = str ''00000000T''"
    by (simp add: py_slice_def slice_bound_def lit)
  have num: "py_int (str ''00000000T'') = Inl ValueError"
    by (simp add: int_defs lit)
  show ?thesis using tipo sl num by simp
qed

end
